theory Spec2Isabelle
  imports Main "HOL-Library.Word" "HOL-Library.Signed_Division"
begin

unbundle bit_operations_syntax

section \<open>Machine integers of the target\<close>

text \<open>
  The firmware is built for the ESP32, an ILP32 target: \<open>int\<close>, \<open>long\<close>,
  \<open>size_t\<close> and \<open>uint32_t\<close> are 32 bits wide. Unsigned fixed-width values are
  words. Values of type \<open>int\<close> that are used arithmetically (playlist indices) are
  modelled as integers together with the range of \<open>int\<close>; the operations that C
  leaves undefined (signed overflow, division by zero, an array access out of range)
  return a \<open>fault\<close>.
\<close>

type_synonym u8 = "8 word"
type_synonym u16 = "16 word"
type_synonym u32 = "32 word"

datatype fault = DivideByZero | SignedOverflow | OutOfBounds

definition INT_MAX :: int where
  "INT_MAX = 2147483647"

definition INT_MIN :: int where
  "INT_MIN = - 2147483648"

definition SIZE_MAX :: nat where
  "SIZE_MAX = 4294967295"

text \<open>The result of an \<open>int\<close> operation, or the fault when it does not fit.\<close>

definition in_int :: "int \<Rightarrow> fault + int" where
  "in_int v = (if INT_MIN \<le> v \<and> v \<le> INT_MAX then Inr v else Inl SignedOverflow)"

text \<open>\<open>a % b\<close> on \<open>int\<close>: the remainder of the division that truncates towards zero.\<close>

definition int_rem :: "int \<Rightarrow> int \<Rightarrow> fault + int" where
  "int_rem a b =
     (if b = 0 then Inl DivideByZero
      else if a = INT_MIN \<and> b = - 1 then Inl SignedOverflow
      else Inr (a smod b))"

text \<open>The cast \<open>(int)n\<close> of a \<open>size_t\<close> value.\<close>

definition int_of_size_t :: "nat \<Rightarrow> int" where
  "int_of_size_t n = (if int n \<le> INT_MAX then int n else int n - 4294967296)"


section \<open>Keypad debounce filter (keypad.c)\<close>

text \<open>
  The three function-static variables \<open>state\<close>, \<open>cnt0\<close>, \<open>cnt1\<close> of
  \<open>keypad_debounce\<close> are the filter's state; they start at zero.
\<close>

record keypad_filter =
  state :: u16
  cnt0 :: u16
  cnt1 :: u16

definition keypad_filter_init :: keypad_filter where
  "keypad_filter_init = \<lparr>state = 0, cnt0 = 0, cnt1 = 0\<rparr>"

text \<open>
  One call of \<open>keypad_debounce(sample, changes)\<close>. The result is the returned
  state, the value stored to \<open>*changes\<close> (when the pointer is not null) and the
  static variables after the call.
\<close>

definition keypad_debounce :: "u16 \<Rightarrow> keypad_filter \<Rightarrow> u16 \<times> u16 \<times> keypad_filter" where
  "keypad_debounce sample k =
     (let delta = sample XOR state k;
          c1 = (cnt1 k XOR cnt0 k) AND delta;
          c0 = NOT (cnt0 k) AND delta;
          toggle = delta AND NOT (c0 OR c1);
          st = state k XOR toggle
      in (st, toggle, \<lparr>state = st, cnt0 = c0, cnt1 = c1\<rparr>))"

text \<open>
  Consecutive calls, one per raw sample: the list of (returned state, change mask) pairs
  and the filter afterwards.
\<close>

fun debounce_run :: "u16 list \<Rightarrow> keypad_filter \<Rightarrow> (u16 \<times> u16) list \<times> keypad_filter" where
  "debounce_run [] k = ([], k)"
| "debounce_run (s # ss) k =
     (case keypad_debounce s k of (st, toggle, k') \<Rightarrow>
        (case debounce_run ss k' of (rs, k'') \<Rightarrow> ((st, toggle) # rs, k'')))"

section \<open>Player state and index resolution (audio_player.h, audio_player.c)\<close>

datatype AudioCodec =
  AudioCodecUnknown | AudioCodecMP3 | AudioCodecOGG | AudioCodecMOD
  | AudioCodecWAV | AudioCodecFLAC | AudioCodecGME

datatype FileType =
  FileTypeNone | FileTypeFolder | FileTypeMP3 | FileTypeOGG | FileTypeMOD | FileTypeWAV
  | FileTypeFLAC | FileTypeGME | FileTypeJPEG | FileTypePNG | FileTypeGIF | FileTypeBMP
  | FileTypeNES | FileTypeGB | FileTypeGBC | FileTypeSMS | FileTypeCOL | FileTypeGG

datatype PlayerCmd =
  PlayerCmdNone | PlayerCmdTerminate | PlayerCmdPause | PlayerCmdNext | PlayerCmdPrev
  | PlayerCmdReinitAudio | PlayerCmdToggleLoopMode

datatype PlayingMode =
  PlayingModeNormal | PlayingModeRepeatSong | PlayingModeRepeatPlaylist | PlayingModeMax

datatype PlayerResult =
  PlayerResultNone | PlayerResultError | PlayerResultDone | PlayerResultNextSong
  | PlayerResultPrevSong | PlayerResultStop

text \<open>Addresses of heap blocks; \<open>0\<close> is the null pointer.\<close>

type_synonym addr = nat

definition NULL :: addr where
  "NULL = 0"

record Song =
  filename :: addr
  filepath :: addr
  codec :: AudioCodec

record PlayerState =
  playing :: bool
  playlist :: addr
  playlist_length :: nat
  playlist_index :: int
  playing_mode :: PlayingMode

text \<open>The state after \<open>memset(&player_state, 0, sizeof(PlayerState))\<close>.\<close>

definition PlayerState_zero :: PlayerState where
  "PlayerState_zero =
     \<lparr>playing = False, playlist = NULL, playlist_length = 0, playlist_index = 0,
      playing_mode = PlayingModeNormal\<rparr>"

text \<open>\<open>(current_index + 1) % (int)state->playlist_length\<close>\<close>

definition next_index_wrapped :: "PlayerState \<Rightarrow> int \<Rightarrow> fault + int" where
  "next_index_wrapped st current_index =
     (case in_int (current_index + 1) of
        Inl e \<Rightarrow> Inl e
      | Inr s \<Rightarrow> int_rem s (int_of_size_t (playlist_length st)))"

definition get_next_song_index :: "PlayerState \<Rightarrow> PlayerResult \<Rightarrow> int \<Rightarrow> fault + int" where
  "get_next_song_index st res current_index =
     (if res = PlayerResultDone \<or> res = PlayerResultNextSong then
        (if playing_mode st \<noteq> PlayingModeRepeatSong \<or> res = PlayerResultNextSong
         then next_index_wrapped st current_index
         else Inr current_index)
      else if res = PlayerResultPrevSong then
        (case in_int (current_index - 1) of
           Inl e \<Rightarrow> Inl e
         | Inr d \<Rightarrow>
             if d < 0 then in_int (int_of_size_t (playlist_length st) - 1) else Inr d)
      else if res = PlayerResultError then next_index_wrapped st current_index
      else Inr current_index)"

section \<open>Playlist manager (playlist.h, playlist.c)\<close>

definition MAX_PLAYLISTS :: nat where
  "MAX_PLAYLISTS = 100"

definition MAX_FILENAME_LENGTH :: nat where
  "MAX_FILENAME_LENGTH = 256"

text \<open>
  \<open>playlists\<close> is the array \<open>char playlists[MAX_PLAYLISTS][MAX_FILENAME_LENGTH]\<close>:
  a list of \<open>MAX_PLAYLISTS\<close> rows, each row the text stored in it.
\<close>

record playlist_manager_t =
  playlists :: "string list"
  num_playlists :: int
  current_index :: int

text \<open>
  \<open>playlist_get_current\<close> returns \<open>NULL\<close> (\<open>None\<close>) or a pointer to a row
  of the array (\<open>Some\<close> of the row); a row outside the array is a fault.
\<close>

definition playlist_get_current :: "playlist_manager_t \<Rightarrow> fault + string option" where
  "playlist_get_current pl =
     (if num_playlists pl = 0 then Inr None
      else if 0 \<le> current_index pl \<and> current_index pl < int (length (playlists pl))
      then Inr (Some (playlists pl ! nat (current_index pl)))
      else Inl OutOfBounds)"

definition playlist_next :: "playlist_manager_t \<Rightarrow> fault + playlist_manager_t" where
  "playlist_next pl =
     (if num_playlists pl = 0 then Inr pl
      else
        (case in_int (current_index pl + 1) of
           Inl e \<Rightarrow> Inl e
         | Inr s \<Rightarrow>
             (case int_rem s (num_playlists pl) of
                Inl e \<Rightarrow> Inl e
              | Inr r \<Rightarrow> Inr (pl\<lparr>current_index := r\<rparr>))))"

definition playlist_prev :: "playlist_manager_t \<Rightarrow> fault + playlist_manager_t" where
  "playlist_prev pl =
     (if num_playlists pl = 0 then Inr pl
      else
        (case in_int (current_index pl - 1) of
           Inl e \<Rightarrow> Inl e
         | Inr d \<Rightarrow>
             (case in_int (d + num_playlists pl) of
                Inl e \<Rightarrow> Inl e
              | Inr s \<Rightarrow>
                  (case int_rem s (num_playlists pl) of
                     Inl e \<Rightarrow> Inl e
                   | Inr r \<Rightarrow> Inr (pl\<lparr>current_index := r\<rparr>)))))"

section \<open>Syncsafe integers (mp3_metadata.c)\<close>

text \<open>
  Both functions read four bytes at \<open>b\<close>. Each byte is promoted to \<open>int\<close> before
  the shift; the largest value, \<open>255 << 21\<close>, fits, so the 32-bit word computes the
  same result.
\<close>

definition syncsafe :: "u8 list \<Rightarrow> u32" where
  "syncsafe b =
     push_bit 21 (ucast (b ! 0)) OR push_bit 14 (ucast (b ! 1))
       OR push_bit 7 (ucast (b ! 2)) OR ucast (b ! 3)"

definition syncsafe32 :: "u8 list \<Rightarrow> u32" where
  "syncsafe32 b =
     push_bit 21 (ucast (b ! 0 AND 0x7F)) OR push_bit 14 (ucast (b ! 1 AND 0x7F))
       OR push_bit 7 (ucast (b ! 2 AND 0x7F)) OR ucast (b ! 3 AND 0x7F)"

section \<open>Codec selection (audio_player.c)\<close>

text \<open>The field \<open>size\<close> of the source is \<open>size_e\<close> here.\<close>

record Entry =
  name :: string
  size_e :: int
  mode :: nat
  mtime :: int

definition choose_codec :: "FileType \<Rightarrow> AudioCodec" where
  "choose_codec ftype =
     (case ftype of
        FileTypeMOD \<Rightarrow> AudioCodecMOD
      | FileTypeMP3 \<Rightarrow> AudioCodecMP3
      | FileTypeOGG \<Rightarrow> AudioCodecOGG
      | FileTypeFLAC \<Rightarrow> AudioCodecFLAC
      | FileTypeWAV \<Rightarrow> AudioCodecWAV
      | FileTypeGME \<Rightarrow> AudioCodecGME
      | _ \<Rightarrow> AudioCodecUnknown)"

text \<open>\<open>tolower\<close> in the C locale: the letters \<open>A\<close> to \<open>Z\<close> move to \<open>a\<close> to \<open>z\<close>.\<close>

definition tolower :: "char \<Rightarrow> char" where
  "tolower c =
     (if (65::nat) \<le> of_char c \<and> of_char c \<le> (90::nat)
      then char_of (of_char c + (32::nat)) else c)"

text \<open>
  \<open>strncasecmp(s1, s2, n)\<close> on strings without their terminating zero: the end of a
  list is the terminator. The result is zero exactly when the first \<open>n\<close> characters
  (or both whole strings, if shorter) agree up to case.
\<close>

fun strncasecmp :: "string \<Rightarrow> string \<Rightarrow> nat \<Rightarrow> int" where
  "strncasecmp s1 s2 0 = 0"
| "strncasecmp [] [] (Suc n) = 0"
| "strncasecmp [] (c2 # r2) (Suc n) = - int (of_char (tolower c2))"
| "strncasecmp (c1 # r1) [] (Suc n) = int (of_char (tolower c1))"
| "strncasecmp (c1 # r1) (c2 # r2) (Suc n) =
     (if tolower c1 \<noteq> tolower c2
      then int (of_char (tolower c1)) - int (of_char (tolower c2))
      else strncasecmp r1 r2 n)"

text \<open>
  The null-terminated array \<open>exts\<close> is the list of its entries; \<open>ext_lens\<close> is the
  parallel array of lengths. \<open>&filename[len - ext_len]\<close> is the string that starts
  \<open>len - ext_len\<close> characters into the file name \<open>fname\<close>.
\<close>

fun matches_extension :: "string \<Rightarrow> nat \<Rightarrow> string list \<Rightarrow> nat list \<Rightarrow> bool" where
  "matches_extension fname len [] ext_lens = False"
| "matches_extension fname len (e # exts) [] = False"
| "matches_extension fname len (e # exts) (ext_len # ext_lens) =
     (if len \<ge> ext_len \<and> strncasecmp e (drop (len - ext_len) fname) ext_len = 0
      then True
      else matches_extension fname len exts ext_lens)"

definition fops_determine_filetype :: "Entry \<Rightarrow> FileType" where
  "fops_determine_filetype entry =
     (let fname = name entry; len = length fname in
      if len < 4 then FileTypeNone
      else if matches_extension fname len [''mp3''] [3] then FileTypeMP3
      else if matches_extension fname len [''ogg''] [3] then FileTypeOGG
      else if matches_extension fname len [''xm'', ''mod'', ''s3m'', ''it''] [2, 3, 3, 2]
        then FileTypeMOD
      else if matches_extension fname len [''wav''] [3] then FileTypeWAV
      else if matches_extension fname len [''flac''] [4] then FileTypeFLAC
      else FileTypeNone)"

text \<open>The codec of an entry, as \<open>make_playlist\<close> and \<open>create_song_from_entry\<close> compute it.\<close>

definition entry_codec :: "Entry \<Rightarrow> AudioCodec" where
  "entry_codec entry = choose_codec (fops_determine_filetype entry)"

section \<open>Heap blocks and the allocator\<close>

text \<open>
  \<open>malloc\<close> and \<open>free\<close> belong to the C library, not to this repository. The heap
  is an explicit store of the live blocks. A block holds character data (only its size
  is recorded: the characters copied into the name and path blocks play no part below),
  one \<open>Song\<close>, or an array of \<open>Song\<close>; \<open>None\<close> stands for a value that has not
  been written yet. The allocator is that of the target, the heap of ESP-IDF: a request
  of zero bytes is answered with \<open>NULL\<close>. Whether any other request is granted is the
  allocator's choice: \<open>grants\<close> lists its answers to the coming requests
  (\<open>True\<close>: a fresh block, \<open>False\<close> or no answer left: \<open>NULL\<close>). \<open>released\<close>
  logs every pointer passed to \<open>free\<close>, in order.
\<close>

datatype cell = Bytes nat | SongObj "Song option" | SongArray "Song option list"

record heap =
  blocks :: "(addr \<times> cell) list"
  next_block :: addr
  grants :: "bool list"
  released :: "addr list"




definition free :: "addr \<Rightarrow> heap \<Rightarrow> heap" where
  "free a h =
     (if a = NULL then h
      else h\<lparr>blocks := filter (\<lambda>b. fst b \<noteq> a) (blocks h), released := released h @ [a]\<rparr>)"



text \<open>\<open>p[i]\<close> for a pointer \<open>p\<close> to an array of \<open>Song\<close>, read and written.\<close>

definition load_elem :: "addr \<Rightarrow> nat \<Rightarrow> heap \<Rightarrow> fault + Song" where
  "load_elem p i h =
     (case map_of (blocks h) p of
        Some (SongArray xs) \<Rightarrow>
          (if i < length xs then (case xs ! i of Some s \<Rightarrow> Inr s | None \<Rightarrow> Inl OutOfBounds)
           else Inl OutOfBounds)
      | _ \<Rightarrow> Inl OutOfBounds)"


section \<open>Building and freeing the playlist (audio_player.c)\<close>







text \<open>The loop of \<open>free_playlist\<close>, from element \<open>i\<close> up to \<open>len\<close>.\<close>

fun free_songs :: "addr \<Rightarrow> nat \<Rightarrow> nat \<Rightarrow> heap \<Rightarrow> fault + heap" where
  "free_songs p i 0 h = Inr h"
| "free_songs p i (Suc n) h =
     (case load_elem p i h of
        Inl e \<Rightarrow> Inl e
      | Inr s \<Rightarrow> free_songs p (Suc i) n (free (filename s) (free (filepath s) h)))"

definition free_playlist :: "PlayerState \<Rightarrow> heap \<Rightarrow> fault + heap" where
  "free_playlist st h =
     (let len = playlist_length st in
      if len < 1 then Inr h
      else
        (case free_songs (playlist st) 0 len h of
           Inl e \<Rightarrow> Inl e
         | Inr h1 \<Rightarrow> Inr (free (playlist st) h1)))"

section \<open>Commands and task teardown (audio_player.c)\<close>

text \<open>
  \<open>handle_cmd\<close>: the result and the player state. The calls that reconfigure the
  audio output and the acknowledgement sent to the other task do not touch the player
  state and are not part of the result.
\<close>

definition next_playing_mode :: "PlayingMode \<Rightarrow> PlayingMode" where
  "next_playing_mode m =
     (case m of
        PlayingModeNormal \<Rightarrow> PlayingModeRepeatSong
      | PlayingModeRepeatSong \<Rightarrow> PlayingModeRepeatPlaylist
      | PlayingModeRepeatPlaylist \<Rightarrow> PlayingModeNormal
      | PlayingModeMax \<Rightarrow> PlayingModeRepeatSong)"

definition handle_cmd :: "PlayerState \<Rightarrow> PlayerCmd \<Rightarrow> PlayerResult \<times> PlayerState" where
  "handle_cmd st received_cmd =
     (case received_cmd of
        PlayerCmdNone \<Rightarrow> (PlayerResultDone, st)
      | PlayerCmdPause \<Rightarrow> (PlayerResultDone, st\<lparr>playing := \<not> playing st\<rparr>)
      | PlayerCmdReinitAudio \<Rightarrow> (PlayerResultDone, st)
      | PlayerCmdToggleLoopMode \<Rightarrow>
          (PlayerResultDone, st\<lparr>playing_mode := next_playing_mode (playing_mode st)\<rparr>)
      | PlayerCmdTerminate \<Rightarrow> (PlayerResultStop, st)
      | PlayerCmdNext \<Rightarrow> (PlayerResultNextSong, st)
      | PlayerCmdPrev \<Rightarrow> (PlayerResultPrevSong, st))"

text \<open>
  The player task: whether it is subscribed to the task watchdog, the global
  \<open>player_task_running\<close>, the global \<open>player_state\<close> and the heap.

  \<open>esp_task_wdt_delete\<close> and \<open>vTaskDelete\<close> belong to ESP-IDF and FreeRTOS.
  \<open>vTaskDelete(NULL)\<close> deletes the calling task: the call does not return, and the
  statements after it are never executed. A function of the task therefore either
  returns or ends with the task deleted.
\<close>

record task =
  watched :: bool
  player_task_running :: bool
  player_state :: PlayerState
  mem :: heap

datatype 'a flow = Returns 'a | Deleted 'a

definition esp_task_wdt_delete :: "task \<Rightarrow> task" where
  "esp_task_wdt_delete t = t\<lparr>watched := False\<rparr>"

text \<open>\<open>vTaskDelete\<close> with the handle \<open>NULL\<close> (\<open>None\<close>) or the handle of another task.\<close>

definition vTaskDelete :: "addr option \<Rightarrow> task \<Rightarrow> task flow" where
  "vTaskDelete handle t = (case handle of None \<Rightarrow> Deleted t | Some other \<Rightarrow> Returns t)"

definition player_teardown_task :: "task \<Rightarrow> fault + task flow" where
  "player_teardown_task t =
     (case vTaskDelete None (esp_task_wdt_delete t) of
        Deleted t1 \<Rightarrow> Inr (Deleted t1)
      | Returns t1 \<Rightarrow>
          (case free_playlist (player_state t1) (mem t1) of
             Inl e \<Rightarrow> Inl e
           | Inr h \<Rightarrow> Inr (Returns (t1\<lparr>mem := h\<rparr>))))"

text \<open>
  The end of \<open>player_task\<close> once \<open>play_song\<close> has returned \<open>PlayerResultStop\<close>:
  the audio buffer \<open>audio_buf\<close> is freed, the flag is cleared, the task is torn down.
\<close>

definition player_task_stop :: "addr \<Rightarrow> task \<Rightarrow> fault + task flow" where
  "player_task_stop audio_buf t =
     player_teardown_task (t\<lparr>mem := free audio_buf (mem t), player_task_running := False\<rparr>)"

section \<open>Byte streams (stdio)\<close>

text \<open>
  A file opened for reading is its content and the position of the stream. \<open>fread\<close>
  delivers the bytes that are left, at most the number asked for, and advances the
  position by the number delivered; the position may lie behind the end after a seek.
  \<open>fseek\<close> takes its offset as a \<open>long\<close> and fails, leaving the position where
  it is, when the new position would be negative.
\<close>

record FILE =
  content :: "u8 list"
  pos :: nat

definition fread :: "nat \<Rightarrow> FILE \<Rightarrow> u8 list \<times> FILE" where
  "fread n f =
     (let got = take n (drop (pos f) (content f))
      in (got, f\<lparr>pos := pos f + length got\<rparr>))"

definition fseek_set :: "int \<Rightarrow> FILE \<Rightarrow> FILE" where
  "fseek_set off f = (if off < 0 then f else f\<lparr>pos := nat off\<rparr>)"

definition fseek_cur :: "int \<Rightarrow> FILE \<Rightarrow> FILE" where
  "fseek_cur off f = (if int (pos f) + off < 0 then f else f\<lparr>pos := nat (int (pos f) + off)\<rparr>)"

text \<open>The conversion of a \<open>uint32_t\<close> argument to the \<open>long\<close> parameter of \<open>fseek\<close>.\<close>

definition long_of_u32 :: "u32 \<Rightarrow> int" where
  "long_of_u32 w = sint w"

section \<open>ID3v2 text frames (mp3_metadata.c)\<close>

text \<open>
  A destination buffer is the list of its bytes; its length is the size of the array.
  A store outside the array is a fault.
\<close>

definition poke :: "u8 list \<Rightarrow> nat \<Rightarrow> u8 \<Rightarrow> fault + u8 list" where
  "poke buf i v = (if i < length buf then Inr (buf[i := v]) else Inl OutOfBounds)"

text \<open>The bytes that \<open>fread\<close> stores at the start of a buffer.\<close>

definition poke_bytes :: "u8 list \<Rightarrow> u8 list \<Rightarrow> fault + u8 list" where
  "poke_bytes buf got =
     (if length got \<le> length buf then Inr (got @ drop (length got) buf) else Inl OutOfBounds)"

text \<open>The C string held in a buffer: the bytes before the first zero.\<close>

definition c_string :: "u8 list \<Rightarrow> u8 list" where
  "c_string buf = takeWhile (\<lambda>b. b \<noteq> 0) buf"

text \<open>
  An array that is declared without an initialiser and then filled by a short
  \<open>fread\<close> keeps indeterminate bytes. They are a parameter: \<open>junk i\<close> is the
  indeterminate byte number \<open>i\<close>.
\<close>

type_synonym indeterminate = "nat \<Rightarrow> u8"

text \<open>
  The code unit \<open>le ? (c[0] | (c[1] << 8)) : (c[1] | (c[0] << 8))\<close> and the
  character stored for it, \<open>(ch < 128) ? ch : '?'\<close>.
\<close>

definition code_unit :: "bool \<Rightarrow> u8 list \<Rightarrow> u16" where
  "code_unit le c =
     (if le then ucast (c ! 0) OR push_bit 8 (ucast (c ! 1))
      else ucast (c ! 1) OR push_bit 8 (ucast (c ! 0)))"

definition ascii_or_qmark :: "u16 \<Rightarrow> u8" where
  "ascii_or_qmark ch = (if ch < 128 then ucast ch else 0x3F)"

text \<open>
  The loop of the two-byte case of \<open>read_text\<close>. \<open>outpos\<close> is the variable
  \<open>o\<close> of the source; \<open>c\<close> is declared anew in each round. The result is \<open>o\<close>,
  the buffer and the stream when the loop is left.
\<close>

function utf16_loop ::
  "indeterminate \<Rightarrow> bool \<Rightarrow> int \<Rightarrow> u32 \<Rightarrow> nat \<Rightarrow> u8 list \<Rightarrow> FILE \<Rightarrow> fault + (nat \<times> u8 list \<times> FILE)" where
  "utf16_loop junk le max_len size_n outpos out f =
     (if 2 \<le> size_n \<and> int outpos < max_len - 1 then
        (case fread 2 f of (got, f1) \<Rightarrow>
           (let c = got @ drop (length got) [junk (2 * outpos), junk (2 * outpos + 1)];
                size1 = size_n - 2;
                ch = code_unit le c
            in if ch = 0 then Inr (outpos, out, f1)
               else
                 (case poke out outpos (ascii_or_qmark ch) of
                    Inl e \<Rightarrow> Inl e
                  | Inr out1 \<Rightarrow> utf16_loop junk le max_len size1 (Suc outpos) out1 f1)))
      else Inr (outpos, out, f))"
  by pat_completeness auto
termination
  by (relation "measure (\<lambda>(junk, le, max_len, size_n, outpos, out, f). unat size_n)")
     (auto simp: unat_sub word_le_nat_alt)

text \<open>
  \<open>read_text(f, size, out, max)\<close>, with \<open>size_n\<close> for \<open>size\<close> and \<open>max_len\<close> for
  \<open>max\<close>: the destination buffer and the stream afterwards.
\<close>

definition read_text ::
  "indeterminate \<Rightarrow> FILE \<Rightarrow> u32 \<Rightarrow> u8 list \<Rightarrow> int \<Rightarrow> fault + (u8 list \<times> FILE)" where
  "read_text junk f size_n out max_len =
     (if max_len < 2 then
        (case poke out 0 0 of Inl e \<Rightarrow> Inl e | Inr out1 \<Rightarrow> Inr (out1, f))
      else
        (case fread 1 f of (got, f1) \<Rightarrow>
           if length got \<noteq> 1 then
             (case poke out 0 0 of Inl e \<Rightarrow> Inl e | Inr out1 \<Rightarrow> Inr (out1, f1))
           else
             (let enc = got ! 0; size1 = size_n - 1 in
              if size1 = 0 then
                (case poke out 0 0 of Inl e \<Rightarrow> Inl e | Inr out1 \<Rightarrow> Inr (out1, f1))
              else if enc = 0 \<or> enc = 3 then
                (let size2 = (if (word_of_int max_len :: u32) \<le> size1 then word_of_int (max_len - 1)
                              else size1)
                 in case fread (unat size2) f1 of (got_text, f2) \<Rightarrow>
                      (case poke_bytes out got_text of
                         Inl e \<Rightarrow> Inl e
                       | Inr out1 \<Rightarrow>
                           (case poke out1 (length got_text) 0 of
                              Inl e \<Rightarrow> Inl e
                            | Inr out2 \<Rightarrow> Inr (out2, f2))))
              else if enc = 1 \<or> enc = 2 then
                (case fread 2 f1 of (got2, f2) \<Rightarrow>
                   (let bom = got2 @ drop (length got2) [0, 0];
                        size2 = size1 - 2;
                        le = \<not> (bom ! 0 = 0xFE \<and> bom ! 1 = 0xFF)
                    in case utf16_loop junk le max_len size2 0 out f2 of
                         Inl e \<Rightarrow> Inl e
                       | Inr (outpos, out1, f3) \<Rightarrow>
                           (case poke out1 outpos 0 of
                              Inl e \<Rightarrow> Inl e
                            | Inr out2 \<Rightarrow> Inr (out2, f3))))
              else
                (case poke out 0 0 of Inl e \<Rightarrow> Inl e | Inr out1 \<Rightarrow> Inr (out1, f1)))))"

section \<open>ID3v2 tags (mp3_metadata.h, mp3_metadata.c)\<close>

definition METADATA_TITLE_MAX :: nat where
  "METADATA_TITLE_MAX = 64"

definition METADATA_ARTIST_MAX :: nat where
  "METADATA_ARTIST_MAX = 64"

definition METADATA_ALBUM_MAX :: nat where
  "METADATA_ALBUM_MAX = 64"

record mp3_metadata_t =
  title :: "u8 list"
  artist :: "u8 list"
  album :: "u8 list"

text \<open>The structure after \<open>memset(meta, 0, sizeof(*meta))\<close>.\<close>

definition mp3_metadata_zero :: mp3_metadata_t where
  "mp3_metadata_zero =
     \<lparr>title = replicate METADATA_TITLE_MAX 0, artist = replicate METADATA_ARTIST_MAX 0,
      album = replicate METADATA_ALBUM_MAX 0\<rparr>"

text \<open>The bytes of a string literal.\<close>

definition bytes_of :: "string \<Rightarrow> u8 list" where
  "bytes_of s = map (\<lambda>c. of_char c) s"

text \<open>
  The frame size of a tag that is not version 4:
  \<open>(fh[4] << 24) | (fh[5] << 16) | (fh[6] << 8) | fh[7]\<close>, a 32-bit value.
\<close>

definition frame_size_be :: "u8 list \<Rightarrow> u32" where
  "frame_size_be fh =
     push_bit 24 (ucast (fh ! 4)) OR push_bit 16 (ucast (fh ! 5))
       OR push_bit 8 (ucast (fh ! 6)) OR ucast (fh ! 7)"

text \<open>
  The frame loop of \<open>parse_id3\<close>, \<open>while (read < tag_size)\<close>. Nothing in the loop
  bounds the number of rounds, so the function counts them down from \<open>fuel\<close>;
  \<open>None\<close> means that the rounds allowed did not suffice. \<open>nread\<close> is the variable
  \<open>read\<close> of the source. \<open>id\<close> is compared as a C string with the frame names.
\<close>

fun frame_loop ::
  "nat \<Rightarrow> indeterminate \<Rightarrow> u8 \<Rightarrow> u32 \<Rightarrow> u32 \<Rightarrow> mp3_metadata_t \<Rightarrow> FILE
     \<Rightarrow> (fault + (mp3_metadata_t \<times> FILE)) option" where
  "frame_loop 0 junk ver tag_size nread meta f = None"
| "frame_loop (Suc fuel) junk ver tag_size nread meta f =
     (if nread < tag_size then
        (case fread 10 f of (fh, f1) \<Rightarrow>
           if length fh \<noteq> 10 then Some (Inr (meta, f1))
           else
             (let ident = take 4 fh @ [0] in
              if fh ! 0 = 0 then Some (Inr (meta, f1))
              else
                (let sz = (if ver = 4 then syncsafe32 (drop 4 fh) else frame_size_be fh);
                     nread1 = nread + (10 + sz)
                 in if sz = 0 then Some (Inr (meta, f1))
                    else if c_string ident = bytes_of ''TIT2'' then
                      (case read_text junk f1 sz (title meta) (int METADATA_TITLE_MAX) of
                         Inl e \<Rightarrow> Some (Inl e)
                       | Inr (out, f2) \<Rightarrow>
                           frame_loop fuel junk ver tag_size nread1 (meta\<lparr>title := out\<rparr>) f2)
                    else if c_string ident = bytes_of ''TPE1'' then
                      (case read_text junk f1 sz (artist meta) (int METADATA_ARTIST_MAX) of
                         Inl e \<Rightarrow> Some (Inl e)
                       | Inr (out, f2) \<Rightarrow>
                           frame_loop fuel junk ver tag_size nread1 (meta\<lparr>artist := out\<rparr>) f2)
                    else if c_string ident = bytes_of ''TALB'' then
                      (case read_text junk f1 sz (album meta) (int METADATA_ALBUM_MAX) of
                         Inl e \<Rightarrow> Some (Inl e)
                       | Inr (out, f2) \<Rightarrow>
                           frame_loop fuel junk ver tag_size nread1 (meta\<lparr>album := out\<rparr>) f2)
                    else
                      frame_loop fuel junk ver tag_size nread1 meta
                        (fseek_cur (long_of_u32 sz) f1))))
      else Some (Inr (meta, f)))"

text \<open>
  \<open>parse_id3\<close>. The array \<open>hdr\<close> has no initialiser: the bytes that a short read
  does not fill are \<open>junk 0\<close> to \<open>junk 9\<close>.
\<close>

definition parse_id3 ::
  "nat \<Rightarrow> indeterminate \<Rightarrow> FILE \<Rightarrow> mp3_metadata_t \<Rightarrow> (fault + (mp3_metadata_t \<times> FILE)) option" where
  "parse_id3 fuel junk f meta =
     (case fread 10 f of (got, f1) \<Rightarrow>
        (let hdr = got @ drop (length got) (map junk [0..<10]) in
         if take 3 hdr \<noteq> bytes_of ''ID3'' then Some (Inr (meta, fseek_set 0 f1))
         else
           (let ver = hdr ! 3; tag_size = syncsafe (drop 6 hdr)
            in frame_loop fuel junk ver tag_size 0 meta f1)))"

text \<open>
  \<open>mp3_read_metadata\<close>. \<open>fopen\<close> yields the stream at position 0, or \<open>NULL\<close>
  (\<open>None\<close>) when the file cannot be opened. The result is the returned flag and the
  metadata structure.
\<close>

definition mp3_read_metadata ::
  "nat \<Rightarrow> indeterminate \<Rightarrow> u8 list option \<Rightarrow> (fault + (bool \<times> mp3_metadata_t)) option" where
  "mp3_read_metadata fuel junk file =
     (let meta = mp3_metadata_zero in
      case file of
        None \<Rightarrow> Some (Inr (False, meta))
      | Some bytes \<Rightarrow>
          (case parse_id3 fuel junk \<lparr>content = bytes, pos = 0\<rparr> meta of
             None \<Rightarrow> None
           | Some (Inl e) \<Rightarrow> Some (Inl e)
           | Some (Inr (meta1, f1)) \<Rightarrow> Some (Inr (True, meta1))))"

section \<open>Text decoding as the specification words it\<close>

text \<open>
  The encoding selector that \<open>read_text\<close> finds: the byte at the position of the
  stream, if there is one.
\<close>

definition selector :: "FILE \<Rightarrow> u8 option" where
  "selector f = (if pos f < length (content f) then Some (content f ! pos f) else None)"

text \<open>
  The two-byte decoding of section 4.6 of the specification, not taken from the code:
  the payload is cut into code units of two bytes in the byte order of the mark, the
  text ends before the first null code unit, every code point from 128 on becomes the
  placeholder \<open>?\<close>, every other one the character with that code, and the result is
  cut to what a destination of \<open>cap\<close> bytes holds besides its terminating zero.
  \<open>lossy_text\<close> is the same with the number of characters as its parameter.
\<close>

fun code_units :: "bool \<Rightarrow> u8 list \<Rightarrow> u16 list" where
  "code_units le (a # b # rest) =
     (if le then ucast a OR push_bit 8 (ucast b) else ucast b OR push_bit 8 (ucast a))
       # code_units le rest"
| "code_units le rest = []"

definition lossy_text :: "bool \<Rightarrow> nat \<Rightarrow> u8 list \<Rightarrow> u8 list" where
  "lossy_text le n payload =
     take n
       (map (\<lambda>ch. if ch < 128 then ucast ch else 0x3F)
          (takeWhile (\<lambda>ch. ch \<noteq> 0) (code_units le payload)))"

definition utf16_lossy_spec :: "bool \<Rightarrow> nat \<Rightarrow> u8 list \<Rightarrow> u8 list" where
  "utf16_lossy_spec le cap payload = lossy_text le (cap - 1) payload"

section \<open>Inputs used in the examples\<close>

text \<open>
  A file of twenty bytes: the tag header \<open>ID3\<close>, version 3, tag size 10, followed by
  one frame header with the name \<open>AAAA\<close> and the size bytes \<open>FF FF FF F6\<close>.
\<close>

definition looping_tag_file :: "u8 list" where
  "looping_tag_file =
     bytes_of ''ID3'' @ [3, 0, 0, 0, 0, 0, 10] @ bytes_of ''AAAA''
       @ [0xFF, 0xFF, 0xFF, 0xF6, 0, 0]"

text \<open>A directory entry that is a regular file with the given name.\<close>

definition file_entry :: "string \<Rightarrow> Entry" where
  "file_entry n = \<lparr>name = n, size_e = 0, mode = 0, mtime = 0\<rparr>"


section \<open>Index resolution\<close>

lemma in_int_small: "INT_MIN \<le> v \<Longrightarrow> v \<le> INT_MAX \<Longrightarrow> in_int v = Inr v"
  by (simp add: in_int_def)

lemma int_rem_pos: "0 \<le> a \<Longrightarrow> 0 < b \<Longrightarrow> int_rem a b = Inr (a mod b)"
  by (simp add: int_rem_def INT_MIN_def smod_mod_positive)

lemma int_of_size_t_small: "int n \<le> INT_MAX \<Longrightarrow> int_of_size_t n = int n"
  by (simp add: int_of_size_t_def)

lemma next_index_wrapped_eq:
  assumes "0 < L" "int L \<le> INT_MAX" "playlist_length st = L" "0 \<le> i" "i < int L"
  shows "next_index_wrapped st i = Inr ((i + 1) mod int L)"
  using assms
  by (simp add: next_index_wrapped_def in_int_small int_rem_pos int_of_size_t_small
      INT_MIN_def INT_MAX_def)

lemma prev_index_eq:
  assumes "0 < L" "int L \<le> INT_MAX" "playlist_length st = L" "0 \<le> i" "i < int L"
  shows "get_next_song_index st PlayerResultPrevSong i = Inr ((i - 1 + int L) mod int L)"
proof (cases "i = 0")
  case True
  with assms show ?thesis
    by (simp add: get_next_song_index_def in_int_def int_of_size_t_small INT_MIN_def
        INT_MAX_def zmod_minus1)
next
  case False
  with assms have "(i - 1 + int L) mod int L = i - 1"
    by (simp add: mod_pos_pos_trivial)
  with False assms show ?thesis
    by (simp add: get_next_song_index_def in_int_def INT_MIN_def INT_MAX_def)
qed


text \<open>
  Claim C1. For a playlist of length \<open>L > 0\<close> (a length that the cast to \<open>int\<close>
  in the code represents, \<open>L \<le> INT_MAX\<close>; a playlist holds at most \<open>MAX_SONGS\<close>
  songs), any loop mode and any index \<open>0 \<le> i < L\<close>, \<open>get_next_song_index\<close>
  returns \<open>i\<close> for a natural end in repeat-song mode, \<open>(i + 1) mod L\<close> for a
  natural end in the other modes, for an explicit next and for a decode error, whatever
  the mode, and \<open>(i - 1 + L) mod L\<close> for an explicit previous. Next from the last
  index gives \<open>0\<close>, previous from index \<open>0\<close> gives \<open>L - 1\<close>.
\<close>

theorem get_next_song_index_resolution:
  assumes "0 < L" "int L \<le> INT_MAX" "playlist_length st = L" "0 \<le> i" "i < int L"
  shows "get_next_song_index st PlayerResultDone i
           = Inr (if playing_mode st = PlayingModeRepeatSong then i else (i + 1) mod int L)
       \<and> get_next_song_index st PlayerResultNextSong i = Inr ((i + 1) mod int L)
       \<and> get_next_song_index st PlayerResultError i = Inr ((i + 1) mod int L)
       \<and> get_next_song_index st PlayerResultPrevSong i = Inr ((i - 1 + int L) mod int L)
       \<and> get_next_song_index st PlayerResultNextSong (int L - 1) = Inr 0
       \<and> get_next_song_index st PlayerResultPrevSong 0 = Inr (int L - 1)"
proof -
  note nx = next_index_wrapped_eq [OF assms]
  have last: "next_index_wrapped st (int L - 1) = Inr 0"
    using next_index_wrapped_eq [OF assms(1-3), of "int L - 1"] assms(1) by simp
  have fin: "get_next_song_index st PlayerResultDone i
           = Inr (if playing_mode st = PlayingModeRepeatSong then i else (i + 1) mod int L)"
    by (simp add: get_next_song_index_def nx)
  have nxt: "get_next_song_index st PlayerResultNextSong i = Inr ((i + 1) mod int L)"
    by (simp add: get_next_song_index_def nx)
  have err: "get_next_song_index st PlayerResultError i = Inr ((i + 1) mod int L)"
    by (simp add: get_next_song_index_def nx)
  have prv: "get_next_song_index st PlayerResultPrevSong i = Inr ((i - 1 + int L) mod int L)"
    by (rule prev_index_eq [OF assms])
  have wrap_up: "get_next_song_index st PlayerResultNextSong (int L - 1) = Inr 0"
    by (simp add: get_next_song_index_def last)
  have wrap_down: "get_next_song_index st PlayerResultPrevSong 0 = Inr (int L - 1)"
    using prev_index_eq [OF assms(1-3), of 0] assms(1) by (simp add: zmod_minus1)
  from fin nxt err prv wrap_up wrap_down show ?thesis
    by (intro conjI)
qed

text \<open>
  The theorem at the playlist of three songs of the specification's scenarios, at the
  last index, in repeat-song mode.
\<close>

theorem get_next_song_index_resolution_witness:
  "get_next_song_index
     (PlayerState_zero\<lparr>playlist_length := 3, playing_mode := PlayingModeRepeatSong\<rparr>)
     PlayerResultDone 2 = Inr 2
   \<and> get_next_song_index
     (PlayerState_zero\<lparr>playlist_length := 3, playing_mode := PlayingModeRepeatSong\<rparr>)
     PlayerResultNextSong 2 = Inr 0
   \<and> get_next_song_index
     (PlayerState_zero\<lparr>playlist_length := 3, playing_mode := PlayingModeRepeatSong\<rparr>)
     PlayerResultError 2 = Inr 0
   \<and> get_next_song_index
     (PlayerState_zero\<lparr>playlist_length := 3, playing_mode := PlayingModeRepeatSong\<rparr>)
     PlayerResultPrevSong 2 = Inr 1
   \<and> get_next_song_index
     (PlayerState_zero\<lparr>playlist_length := 3, playing_mode := PlayingModeRepeatSong\<rparr>)
     PlayerResultPrevSong 0 = Inr 2"
  using get_next_song_index_resolution
    [of 3 "PlayerState_zero\<lparr>playlist_length := 3, playing_mode := PlayingModeRepeatSong\<rparr>" 2]
  by (simp add: INT_MAX_def)

section \<open>Playlist manager\<close>

text \<open>
  Claim C10. With \<open>num_playlists = 0\<close>, \<open>playlist_next\<close> and
  \<open>playlist_prev\<close> leave the state as it is and \<open>playlist_get_current\<close> returns
  \<open>NULL\<close>. With \<open>0 < num_playlists\<close> (at most the \<open>MAX_PLAYLISTS\<close> rows of the
  array) and \<open>0 \<le> current_index < num_playlists\<close>, \<open>playlist_next\<close> moves to
  \<open>(current_index + 1) mod num_playlists\<close> and \<open>playlist_prev\<close> to
  \<open>(current_index - 1 + num_playlists) mod num_playlists\<close>, both within
  \<open>0 \<le> current_index < num_playlists\<close>, and \<open>playlist_get_current\<close> returns the
  row of the current index, not \<open>NULL\<close>.
\<close>

theorem playlist_manager_navigation:
  assumes "0 < num_playlists pl" "num_playlists pl \<le> int MAX_PLAYLISTS"
    and "length (playlists pl) = MAX_PLAYLISTS"
    and "0 \<le> current_index pl" "current_index pl < num_playlists pl"
  shows "playlist_next (pl0\<lparr>num_playlists := 0\<rparr>) = Inr (pl0\<lparr>num_playlists := 0\<rparr>)
       \<and> playlist_prev (pl0\<lparr>num_playlists := 0\<rparr>) = Inr (pl0\<lparr>num_playlists := 0\<rparr>)
       \<and> playlist_get_current (pl0\<lparr>num_playlists := 0\<rparr>) = Inr None
       \<and> playlist_next pl
           = Inr (pl\<lparr>current_index := (current_index pl + 1) mod num_playlists pl\<rparr>)
       \<and> playlist_prev pl
           = Inr (pl\<lparr>current_index :=
                       (current_index pl - 1 + num_playlists pl) mod num_playlists pl\<rparr>)
       \<and> 0 \<le> (current_index pl + 1) mod num_playlists pl
       \<and> (current_index pl + 1) mod num_playlists pl < num_playlists pl
       \<and> 0 \<le> (current_index pl - 1 + num_playlists pl) mod num_playlists pl
       \<and> (current_index pl - 1 + num_playlists pl) mod num_playlists pl < num_playlists pl
       \<and> playlist_get_current pl = Inr (Some (playlists pl ! nat (current_index pl)))"
  using assms
  by (auto simp: playlist_next_def playlist_prev_def playlist_get_current_def in_int_def
      int_rem_pos MAX_PLAYLISTS_def INT_MIN_def INT_MAX_def)

text \<open>
  The theorem at a manager with three files loaded, at the first and at the last index.
\<close>

theorem playlist_manager_navigation_witness:
  "playlist_prev
     \<lparr>playlists = ''/sdcard/a.mp3'' # ''/sdcard/b.mp3'' # ''/sdcard/c.mp3'' # replicate 97 [],
      num_playlists = 3, current_index = 0\<rparr>
     = Inr \<lparr>playlists = ''/sdcard/a.mp3'' # ''/sdcard/b.mp3'' # ''/sdcard/c.mp3'' # replicate 97 [],
            num_playlists = 3, current_index = 2\<rparr>
   \<and> playlist_next
     \<lparr>playlists = ''/sdcard/a.mp3'' # ''/sdcard/b.mp3'' # ''/sdcard/c.mp3'' # replicate 97 [],
      num_playlists = 3, current_index = 2\<rparr>
     = Inr \<lparr>playlists = ''/sdcard/a.mp3'' # ''/sdcard/b.mp3'' # ''/sdcard/c.mp3'' # replicate 97 [],
            num_playlists = 3, current_index = 0\<rparr>
   \<and> playlist_get_current
     \<lparr>playlists = ''/sdcard/a.mp3'' # ''/sdcard/b.mp3'' # ''/sdcard/c.mp3'' # replicate 97 [],
      num_playlists = 3, current_index = 0\<rparr>
     = Inr (Some ''/sdcard/a.mp3'')"
  using playlist_manager_navigation
    [of "\<lparr>playlists = ''/sdcard/a.mp3'' # ''/sdcard/b.mp3'' # ''/sdcard/c.mp3'' # replicate 97 [],
          num_playlists = 3, current_index = 0\<rparr>"]
    playlist_manager_navigation
    [of "\<lparr>playlists = ''/sdcard/a.mp3'' # ''/sdcard/b.mp3'' # ''/sdcard/c.mp3'' # replicate 97 [],
          num_playlists = 3, current_index = 2\<rparr>"]
  by (simp add: MAX_PLAYLISTS_def)

section \<open>Keypad debounce\<close>

lemma keypad_debounce_bits:
  assumes "keypad_debounce s k = (st, t, k')"
  shows "bit (cnt1 k') n = ((bit (cnt1 k) n \<noteq> bit (cnt0 k) n) \<and> (bit s n \<noteq> bit (state k) n))"
    and "bit (cnt0 k') n = (n < 16 \<and> \<not> bit (cnt0 k) n \<and> (bit s n \<noteq> bit (state k) n))"
    and "bit t n
           = (n < 16 \<and> (bit s n \<noteq> bit (state k) n) \<and> \<not> bit (cnt0 k') n \<and> \<not> bit (cnt1 k') n)"
    and "bit (state k') n = (bit (state k) n \<noteq> bit t n)"
  using assms by (auto simp: keypad_debounce_def Let_def bit_simps)

lemma keypad_debounce_returns_state:
  "keypad_debounce s k = (st, t, k') \<Longrightarrow> st = state k'"
  by (auto simp: keypad_debounce_def Let_def)

text \<open>
  Claim C4, as stated, fails: from the initial filter (state and counters zero), the raw
  bit 0 is set in two consecutive samples, and both calls report an empty change mask
  and return the old state.
\<close>

theorem keypad_debounce_two_samples_counterexample:
  "fst (debounce_run [1, 1] keypad_filter_init) = [(0, 0), (0, 0)]"
  by (simp add: keypad_debounce_def keypad_filter_init_def)

text \<open>
  Claim C4, amended. Let the counters of bit \<open>n\<close> be clear. If the raw bit differs
  from the stored state in one call (\<open>g1\<close>) and agrees with it in the next (\<open>g2\<close>),
  neither call reports the bit in the change mask and both return the old value of the
  bit. If the raw bit differs from the stored state in four consecutive calls
  (\<open>s1\<close> to \<open>s4\<close>), the first three calls report no change and return the old
  value, and the fourth call reports the bit in the change mask, once, and returns the
  new value: the two counters count four samples, not two.
\<close>

theorem keypad_debounce_glitch_and_four_samples:
  assumes "n < 16" "\<not> bit (cnt0 k) n" "\<not> bit (cnt1 k) n"
    and "bit g1 n \<noteq> bit (state k) n" "bit g2 n = bit (state k) n"
    and "bit s1 n \<noteq> bit (state k) n" "bit s2 n \<noteq> bit (state k) n"
    and "bit s3 n \<noteq> bit (state k) n" "bit s4 n \<noteq> bit (state k) n"
  shows "map (\<lambda>r. bit (snd r) n) (fst (debounce_run [g1, g2] k)) = [False, False]
       \<and> map (\<lambda>r. bit (fst r) n) (fst (debounce_run [g1, g2] k))
           = [bit (state k) n, bit (state k) n]
       \<and> map (\<lambda>r. bit (snd r) n) (fst (debounce_run [s1, s2, s3, s4] k))
           = [False, False, False, True]
       \<and> map (\<lambda>r. bit (fst r) n) (fst (debounce_run [s1, s2, s3, s4] k))
           = [bit (state k) n, bit (state k) n, bit (state k) n, \<not> bit (state k) n]"
proof -
  obtain a1 b1 h1 where g1: "keypad_debounce g1 k = (a1, b1, h1)" by (metis prod_cases3)
  obtain a2 b2 h2 where g2: "keypad_debounce g2 h1 = (a2, b2, h2)" by (metis prod_cases3)
  obtain r1 t1 k1 where 1: "keypad_debounce s1 k = (r1, t1, k1)" by (metis prod_cases3)
  obtain r2 t2 k2 where 2: "keypad_debounce s2 k1 = (r2, t2, k2)" by (metis prod_cases3)
  obtain r3 t3 k3 where 3: "keypad_debounce s3 k2 = (r3, t3, k3)" by (metis prod_cases3)
  obtain r4 t4 k4 where 4: "keypad_debounce s4 k3 = (r4, t4, k4)" by (metis prod_cases3)
  note bits = keypad_debounce_bits [OF g1, of n] keypad_debounce_bits [OF g2, of n]
    keypad_debounce_bits [OF 1, of n] keypad_debounce_bits [OF 2, of n]
    keypad_debounce_bits [OF 3, of n] keypad_debounce_bits [OF 4, of n]
  note rets = keypad_debounce_returns_state [OF g1] keypad_debounce_returns_state [OF g2]
    keypad_debounce_returns_state [OF 1] keypad_debounce_returns_state [OF 2]
    keypad_debounce_returns_state [OF 3] keypad_debounce_returns_state [OF 4]
  have run2: "fst (debounce_run [g1, g2] k) = [(a1, b1), (a2, b2)]"
    by (simp add: g1 g2)
  have run4: "fst (debounce_run [s1, s2, s3, s4] k) = [(r1, t1), (r2, t2), (r3, t3), (r4, t4)]"
    by (simp add: 1 2 3 4)
  show ?thesis
    unfolding run2 run4 using assms bits rets by auto
qed

text \<open>
  The theorem at bit 0 of the initial filter: a glitch \<open>1, 0\<close>, and the bit held for
  four samples.
\<close>

theorem keypad_debounce_glitch_and_four_samples_witness:
  "map (\<lambda>r. bit (snd r) 0) (fst (debounce_run [1, 0] keypad_filter_init)) = [False, False]
   \<and> map (\<lambda>r. bit (fst r) 0) (fst (debounce_run [1, 0] keypad_filter_init)) = [False, False]
   \<and> map (\<lambda>r. bit (snd r) 0) (fst (debounce_run [1, 1, 1, 1] keypad_filter_init))
       = [False, False, False, True]
   \<and> map (\<lambda>r. bit (fst r) 0) (fst (debounce_run [1, 1, 1, 1] keypad_filter_init))
       = [False, False, False, True]"
proof -
  have c: "\<not> bit (cnt0 keypad_filter_init) 0" "\<not> bit (cnt1 keypad_filter_init) 0"
    by (simp_all add: keypad_filter_init_def)
  have d: "bit (1 :: u16) 0 \<noteq> bit (state keypad_filter_init) 0"
    by (simp add: keypad_filter_init_def)
  have e: "bit (0 :: u16) 0 = bit (state keypad_filter_init) 0"
    by (simp add: keypad_filter_init_def)
  have z: "bit (state keypad_filter_init) 0 = False"
    by (simp add: keypad_filter_init_def)
  from keypad_debounce_glitch_and_four_samples [OF _ c d e d d d d] show ?thesis
    unfolding z by simp
qed

section \<open>Syncsafe decoding of the tag size\<close>

lemma and_7F: "(x :: u8) < 0x80 \<Longrightarrow> x AND 0x7F = x"
proof -
  assume "x < 0x80"
  then have "x < 2 ^ 7" by simp
  then have "x AND mask 7 = x" by (rule less_mask_eq)
  then show ?thesis by (simp add: mask_eq_exp_minus_1)
qed

text \<open>
  On bytes whose high bit is clear, as in every well-formed tag, \<open>syncsafe\<close> and the
  masked \<open>syncsafe32\<close> agree; the two examples of the specification are of this kind.
\<close>

lemma syncsafe_eq_syncsafe32:
  "b ! 0 < 0x80 \<Longrightarrow> b ! 1 < 0x80 \<Longrightarrow> b ! 2 < 0x80 \<Longrightarrow> b ! 3 < 0x80
   \<Longrightarrow> syncsafe b = syncsafe32 b"
  by (simp add: syncsafe_def syncsafe32_def and_7F)

lemma syncsafe_spec_examples:
  "syncsafe [0x00, 0x00, 0x00, 0x20] = 32 \<and> syncsafe [0x7F, 0x7F, 0x7F, 0x7F] = 0x0FFFFFFF"
  by (simp add: syncsafe_def)

text \<open>
  Claim C5. The tag size is decoded by \<open>syncsafe\<close>, which does not mask the bytes:
  on the size bytes \<open>00 00 00 80\<close> it yields 128, where the decoding from the low
  seven bits of each byte, which \<open>syncsafe32\<close> computes, yields 0.
\<close>

theorem syncsafe_keeps_high_bits:
  "syncsafe [0x00, 0x00, 0x00, 0x80] = 128 \<and> syncsafe32 [0x00, 0x00, 0x00, 0x80] = 0"
  by (simp add: syncsafe_def syncsafe32_def)

section \<open>Codec classification\<close>

text \<open>
  File names that end in a dot and one of the lower-case extensions are classified as
  the specification says.
\<close>

lemma entry_codec_extensions:
  "entry_codec (file_entry (stem @ ''.mp3'')) = AudioCodecMP3"
  "entry_codec (file_entry (stem @ ''.ogg'')) = AudioCodecOGG"
  "entry_codec (file_entry (stem @ ''.mod'')) = AudioCodecMOD"
  "entry_codec (file_entry (stem @ ''.s3m'')) = AudioCodecMOD"
  "entry_codec (file_entry (stem @ ''.wav'')) = AudioCodecWAV"
  "entry_codec (file_entry (stem @ ''.flac'')) = AudioCodecFLAC"
  by (simp_all add: entry_codec_def file_entry_def fops_determine_filetype_def choose_codec_def
      tolower_def Let_def numeral_3_eq_3 numeral_2_eq_2 eval_nat_numeral)

text \<open>
  Claim C8. \<open>matches_extension\<close> compares the end of the name with the extension and
  does not look for the dot before it: \<open>summit\<close>, a name without extension, and
  \<open>track.exit\<close>, whose extension is \<open>exit\<close>, are classified as MOD, and
  \<open>demo.amp3\<close>, whose extension is \<open>amp3\<close>, as MP3.
\<close>

theorem fops_determine_filetype_suffix_match:
  "entry_codec (file_entry ''summit'') = AudioCodecMOD
   \<and> entry_codec (file_entry ''track.exit'') = AudioCodecMOD
   \<and> entry_codec (file_entry ''demo.amp3'') = AudioCodecMP3"
  by code_simp

section \<open>Terminate and task teardown\<close>

lemma handle_cmd_terminate: "handle_cmd st PlayerCmdTerminate = (PlayerResultStop, st)"
  by (simp add: handle_cmd_def)

text \<open>
  Had \<open>free_playlist\<close> been reached, it would release every block of the playlist
  once: on the playlist built from \<open>a.mp3\<close> and \<open>b.ogg\<close> (the blocks 2 and 5
  are the temporary \<open>Song\<close> objects that \<open>make_playlist\<close> frees itself) it
  frees both paths, both names and the array.
\<close>

lemma free_playlist_example:
  "free_playlist
     \<lparr>playing = False, playlist = 1, playlist_length = 2, playlist_index = 1,
      playing_mode = PlayingModeNormal\<rparr>
     \<lparr>blocks =
        [(1, SongArray [Some \<lparr>filename = 3, filepath = 4, codec = AudioCodecMP3\<rparr>,
                        Some \<lparr>filename = 6, filepath = 7, codec = AudioCodecOGG\<rparr>]),
         (7, Bytes 16), (6, Bytes 6), (4, Bytes 16), (3, Bytes 6)],
      next_block = 7, grants = [], released = [2, 5]\<rparr>
   = Inr \<lparr>blocks = [], next_block = 7, grants = [], released = [2, 5, 4, 3, 7, 6, 1]\<rparr>"
  by code_simp

text \<open>
  Claim C3. \<open>player_teardown_task\<close> calls \<open>vTaskDelete(NULL)\<close> before
  \<open>free_playlist\<close>: the task ends there, for every state of the task, and the heap
  is the heap it had before the teardown. Of the whole end of \<open>player_task\<close> only the
  audio buffer is released; no block of the playlist is.
\<close>

theorem player_teardown_task_frees_nothing:
  "player_teardown_task t = Inr (Deleted (t\<lparr>watched := False\<rparr>))
   \<and> player_task_stop audio_buf t
       = Inr (Deleted (t\<lparr>mem := free audio_buf (mem t), player_task_running := False,
                          watched := False\<rparr>))"
  by (simp add: player_task_stop_def player_teardown_task_def vTaskDelete_def
      esp_task_wdt_delete_def)

section \<open>Building the playlist\<close>















section \<open>The index invariant\<close>




section \<open>Reading the metadata of a file\<close>

lemma u32_wrap: "(4294967296 :: u32) = 0"
  by simp

lemma ten_Suc: "Suc (Suc (Suc (Suc (Suc (Suc (Suc (Suc (Suc (Suc 0))))))))) = 10"
  by simp

lemma looping_tag_file_bytes:
  "looping_tag_file
     = [0x49, 0x44, 0x33, 3, 0, 0, 0, 0, 0, 10, 0x41, 0x41, 0x41, 0x41,
        0xFF, 0xFF, 0xFF, 0xF6, 0, 0]"
  by (simp add: looping_tag_file_def bytes_of_def)

text \<open>
  One round of the frame loop on \<open>looping_tag_file\<close>: the frame size is
  \<open>0xFFFFFFF6\<close>, so \<open>read += 10 + sz\<close> leaves \<open>read\<close> at 0, and the seek by
  \<open>(long)sz = -10\<close> moves the stream back to the frame header just read.
\<close>

lemma frame_loop_round:
  "frame_loop (Suc fuel) junk 3 10 0 meta \<lparr>content = looping_tag_file, pos = 10\<rparr>
     = frame_loop fuel junk 3 10 0 meta \<lparr>content = looping_tag_file, pos = 10\<rparr>"
  by (simp add: looping_tag_file_bytes fread_def Let_def frame_size_be_def c_string_def
      bytes_of_def fseek_cur_def long_of_u32_def u32_wrap)

lemma frame_loop_never:
  "frame_loop fuel junk 3 10 0 meta \<lparr>content = looping_tag_file, pos = 10\<rparr> = None"
  by (induction fuel) (simp_all add: frame_loop_round del: frame_loop.simps(2))

text \<open>
  What does hold of \<open>mp3_read_metadata\<close>: a file that cannot be opened gives
  \<open>false\<close>; a file that does not start with \<open>ID3\<close> gives \<open>true\<close> with the
  cleared structure, and \<open>parse_id3\<close> leaves the stream at position 0.
\<close>

lemma mp3_read_metadata_unopened:
  "mp3_read_metadata fuel junk None = Some (Inr (False, mp3_metadata_zero))"
  by (simp add: mp3_read_metadata_def)

lemma parse_id3_no_tag:
  assumes "3 \<le> length bytes" "take 3 bytes \<noteq> bytes_of ''ID3''"
  shows "parse_id3 fuel junk \<lparr>content = bytes, pos = 0\<rparr> meta
           = Some (Inr (meta, \<lparr>content = bytes, pos = 0\<rparr>))"
  using assms
  by (simp add: parse_id3_def fread_def Let_def fseek_set_def min_def)

lemma mp3_read_metadata_no_tag:
  assumes "3 \<le> length bytes" "take 3 bytes \<noteq> bytes_of ''ID3''"
  shows "mp3_read_metadata fuel junk (Some bytes) = Some (Inr (True, mp3_metadata_zero))"
  by (simp add: mp3_read_metadata_def parse_id3_no_tag [OF assms])

text \<open>
  Claim C9. \<open>mp3_read_metadata\<close> does not return on \<open>looping_tag_file\<close>, a file
  that can be opened: whatever number of rounds the frame loop is allowed, and whatever
  the indeterminate bytes, the rounds do not suffice.
\<close>

theorem mp3_read_metadata_diverges:
  "mp3_read_metadata fuel junk (Some looping_tag_file) = None"
proof -
  have "parse_id3 fuel junk \<lparr>content = looping_tag_file, pos = 0\<rparr> mp3_metadata_zero
          = frame_loop fuel junk 3 10 0 mp3_metadata_zero
              \<lparr>content = looping_tag_file, pos = 10\<rparr>"
    by (simp add: parse_id3_def looping_tag_file_bytes fread_def Let_def bytes_of_def
        syncsafe_def ten_Suc)
  then show ?thesis
    by (simp add: mp3_read_metadata_def frame_loop_never)
qed

section \<open>Text frames\<close>

declare utf16_loop.simps [simp del]

lemma poke_Inr: "i < length buf \<Longrightarrow> poke buf i v = Inr (buf[i := v])"
  by (simp add: poke_def)

lemma ascii_or_qmark_byte:
  assumes "ch \<noteq> 0"
  shows "ascii_or_qmark ch \<noteq> 0 \<and> ascii_or_qmark ch < 128"
proof (cases "ch < 128")
  case True
  then have u: "unat ch < 128" by (simp add: word_less_nat_alt)
  have "unat (ucast ch :: u8) = take_bit 8 (unat ch)"
    by (simp add: unsigned_ucast_eq)
  with u have e: "unat (ucast ch :: u8) = unat ch"
    by (simp add: take_bit_nat_eq_self)
  from assms have "unat ch \<noteq> 0" by (simp add: unat_eq_0)
  with e have "unat (ucast ch :: u8) \<noteq> 0" by simp
  then have "(ucast ch :: u8) \<noteq> 0" by (simp add: unat_eq_0)
  moreover from e u have "(ucast ch :: u8) < 128" by (simp add: word_less_nat_alt)
  ultimately show ?thesis using True by (simp add: ascii_or_qmark_def)
next
  case False
  then show ?thesis by (simp add: ascii_or_qmark_def)
qed

lemma c_string_length_le:
  assumes "i < length buf" "buf ! i = 0"
  shows "length (c_string buf) \<le> i"
proof (rule ccontr)
  assume "\<not> length (c_string buf) \<le> i"
  then have lt: "i < length (takeWhile (\<lambda>b. b \<noteq> 0) buf)" by (simp add: c_string_def)
  then have "takeWhile (\<lambda>b. b \<noteq> 0) buf ! i = buf ! i" by (rule takeWhile_nth)
  moreover from lt have "takeWhile (\<lambda>b. b \<noteq> 0) buf ! i \<in> set (takeWhile (\<lambda>b. b \<noteq> 0) buf)"
    by simp
  ultimately have "buf ! i \<noteq> 0" by (metis set_takeWhileD)
  with assms show False by simp
qed

lemma c_string_empty: "0 < length buf \<Longrightarrow> c_string (buf[0 := 0]) = []"
  by (cases buf) (simp_all add: c_string_def)

lemma c_string_prefix:
  assumes "n < length buf" "buf ! n = 0" "\<forall>i < n. buf ! i \<noteq> 0"
  shows "c_string buf = take n buf"
proof -
  have "buf = take n buf @ drop n buf" by simp
  moreover from assms have "\<forall>x \<in> set (take n buf). x \<noteq> 0"
    by (auto simp: in_set_conv_nth)
  moreover from assms have "drop n buf = 0 # drop (Suc n) buf"
    by (metis Cons_nth_drop_Suc)
  ultimately show ?thesis
    unfolding c_string_def by (metis (mono_tags, lifting) takeWhile_append2 takeWhile.simps(2) append_Nil2)
qed


lemma utf16_loop_safe:
  assumes "int outpos \<le> max_len - 1" "length out = nat max_len"
  shows "\<exists>o' out' f'. utf16_loop junk le max_len size_n outpos out f = Inr (o', out', f')
           \<and> outpos \<le> o' \<and> int o' \<le> max_len - 1 \<and> length out' = length out
           \<and> take outpos out' = take outpos out
           \<and> (\<forall>i. outpos \<le> i \<and> i < o' \<longrightarrow> out' ! i \<noteq> 0 \<and> out' ! i < 128)"
  using assms
proof (induction junk le max_len size_n outpos out f rule: utf16_loop.induct)
  case (1 junk le max_len size_n outpos out f)
  show ?case
  proof (cases "2 \<le> size_n \<and> int outpos < max_len - 1")
    case False
    then show ?thesis
      using "1.prems" by (subst utf16_loop.simps) auto
  next
    case go: True
    obtain got f1 where fr: "fread 2 f = (got, f1)" by (cases "fread 2 f")
    define c where "c = got @ drop (length got) [junk (2 * outpos), junk (2 * outpos + 1)]"
    define ch where "ch = code_unit le c"
    show ?thesis
    proof (cases "ch = 0")
      case True
      with go fr "1.prems" show ?thesis
        by (subst utf16_loop.simps) (auto simp: c_def ch_def Let_def)
    next
      case False
      define v where "v = ascii_or_qmark ch"
      from ascii_or_qmark_byte [OF False] have v: "v \<noteq> 0" "v < 128" by (simp_all add: v_def)
      from go "1.prems" have lt: "outpos < length out" by linarith
      then have pk: "poke out outpos v = Inr (out[outpos := v])" by (rule poke_Inr)
      have unf: "utf16_loop junk le max_len size_n outpos out f
                   = utf16_loop junk le max_len (size_n - 2) (Suc outpos) (out[outpos := v]) f1"
        using go fr False pk
        by (subst utf16_loop.simps) (simp add: c_def ch_def v_def Let_def)
      have "\<exists>o' out' f'. utf16_loop junk le max_len (size_n - 2) (Suc outpos) (out[outpos := v]) f1
                  = Inr (o', out', f')
           \<and> Suc outpos \<le> o' \<and> int o' \<le> max_len - 1 \<and> length out' = length (out[outpos := v])
           \<and> take (Suc outpos) out' = take (Suc outpos) (out[outpos := v])
           \<and> (\<forall>i. Suc outpos \<le> i \<and> i < o' \<longrightarrow> out' ! i \<noteq> 0 \<and> out' ! i < 128)"
        using go fr False pk "1.prems"
        by (intro "1.IH" [where x = got and y = f1 and xa = c and xb = "size_n - 2"
              and xc = ch and b = "out[outpos := v]"])
           (simp_all add: c_def ch_def v_def)
      then obtain o' out' f' where r:
        "utf16_loop junk le max_len (size_n - 2) (Suc outpos) (out[outpos := v]) f1 = Inr (o', out', f')"
        "Suc outpos \<le> o'" "int o' \<le> max_len - 1" "length out' = length (out[outpos := v])"
        "take (Suc outpos) out' = take (Suc outpos) (out[outpos := v])"
        "\<forall>i. Suc outpos \<le> i \<and> i < o' \<longrightarrow> out' ! i \<noteq> 0 \<and> out' ! i < 128"
        by blast
      have "out' ! outpos = take (Suc outpos) out' ! outpos" by simp
      also have "\<dots> = take (Suc outpos) (out[outpos := v]) ! outpos" by (simp only: r(5))
      also have "\<dots> = v" using lt by simp
      finally have at: "out' ! outpos = v" .
      have "take outpos out' = take outpos (take (Suc outpos) out')" by (simp add: min_def)
      also have "\<dots> = take outpos (take (Suc outpos) (out[outpos := v]))" by (simp only: r(5))
      also have "\<dots> = take outpos out" by (simp add: min_def)
      finally have pre: "take outpos out' = take outpos out" .
      have "\<forall>i. outpos \<le> i \<and> i < o' \<longrightarrow> out' ! i \<noteq> 0 \<and> out' ! i < 128"
      proof (intro allI impI)
        fix i assume i: "outpos \<le> i \<and> i < o'"
        show "out' ! i \<noteq> 0 \<and> out' ! i < 128"
        proof (cases "i = outpos")
          case True
          with at v show ?thesis by simp
        next
          case False
          with i r(6) show ?thesis by simp
        qed
      qed
      with r pre unf show ?thesis by simp
    qed
  qed
qed

lemma terminated_at:
  assumes "n < length buf"
  shows "length (c_string (buf[n := 0])) < length (buf[n := 0])"
proof -
  from assms have "length (c_string (buf[n := 0])) \<le> n"
    by (intro c_string_length_le) simp_all
  with assms show ?thesis by simp
qed

lemma unat_word_of_int_u32:
  assumes "0 \<le> k" "k \<le> INT_MAX"
  shows "unat (word_of_int k :: u32) = nat k"
proof -
  from assms(1) have "(word_of_int k :: u32) = of_nat (nat k)"
    by (rule word_of_int_nat)
  then have "unat (word_of_int k :: u32) = nat k mod 2 ^ 32"
    by (simp only: unat_of_nat) simp
  moreover from assms have "nat k < 2 ^ 32" by (simp add: INT_MAX_def)
  ultimately show ?thesis by simp
qed

lemma size_cap:
  assumes "2 \<le> max_len" "max_len \<le> INT_MAX"
  shows "unat (if (word_of_int max_len :: u32) \<le> size1 then word_of_int (max_len - 1) else size1)
           < nat max_len"
proof -
  from assms have m: "unat (word_of_int max_len :: u32) = nat max_len"
    by (intro unat_word_of_int_u32) simp_all
  from assms have m1: "unat (word_of_int (max_len - 1) :: u32) = nat (max_len - 1)"
    by (intro unat_word_of_int_u32) simp_all
  show ?thesis
  proof (cases "(word_of_int max_len :: u32) \<le> size1")
    case True
    with m1 assms show ?thesis by simp
  next
    case False
    then have "unat size1 < unat (word_of_int max_len :: u32)"
      by (simp add: word_less_nat_alt not_le)
    with m False show ?thesis by simp
  qed
qed

lemma take_one_drop:
  assumes "take (Suc 0) (drop p xs) = [x]"
  shows "p < length xs \<and> xs ! p = x"
proof (cases "p < length xs")
  case True
  then have "drop p xs = xs ! p # drop (Suc p) xs" by (simp add: Cons_nth_drop_Suc)
  with assms True show ?thesis by simp
next
  case False
  with assms show ?thesis by simp
qed

lemma fread_one:
  assumes "fread 1 f = ([enc], f1)"
  shows "selector f = Some enc" "f1 = f\<lparr>pos := Suc (pos f)\<rparr>"
proof -
  from assms have t: "take (Suc 0) (drop (pos f) (content f)) = [enc]"
    by (simp add: fread_def Let_def)
  from take_one_drop [OF t] show "selector f = Some enc" by (simp add: selector_def)
  from assms t show "f1 = f\<lparr>pos := Suc (pos f)\<rparr>"
    by (simp add: fread_def Let_def)
qed



lemma fread_length: "fread n f = (got, f1) \<Longrightarrow> length got \<le> n"
  by (auto simp: fread_def Let_def)

lemma read_text_single_byte:
  assumes "2 \<le> max_len" "max_len \<le> INT_MAX" "length out = nat max_len"
  shows "\<exists>out' f'.
           (case fread (unat (if (word_of_int max_len :: u32) \<le> size1
                              then word_of_int (max_len - 1) else size1)) f1 of
              (got_text, f2) \<Rightarrow>
                (case poke_bytes out got_text of
                   Inl e \<Rightarrow> Inl e
                 | Inr out1 \<Rightarrow>
                     (case poke out1 (length got_text) 0 of
                        Inl e \<Rightarrow> Inl e
                      | Inr out2 \<Rightarrow> Inr (out2, f2)))) = Inr (out', f')
           \<and> length out' = length out \<and> length (c_string out') < length out'"
proof -
  define n where "n = unat (if (word_of_int max_len :: u32) \<le> size1
                              then word_of_int (max_len - 1) else size1)"
  obtain got_text f2 where fr: "fread n f1 = (got_text, f2)" by (cases "fread n f1")
  from size_cap [OF assms(1,2)] have "n < nat max_len" by (simp add: n_def)
  with fread_length [OF fr] assms(3) have len: "length got_text < length out" by simp
  define out1 where "out1 = got_text @ drop (length got_text) out"
  from len have pb: "poke_bytes out got_text = Inr out1"
    by (simp add: poke_bytes_def out1_def)
  from len have l1: "length out1 = length out" by (simp add: out1_def)
  with len have pk: "poke out1 (length got_text) 0 = Inr (out1[length got_text := 0])"
    by (simp add: poke_def)
  from len l1 have "length (c_string (out1[length got_text := 0]))
      < length (out1[length got_text := 0])"
    by (intro terminated_at) simp
  with fr pb pk l1 show ?thesis
    unfolding n_def [symmetric] by simp
qed

lemma code_units_pair: "code_units le (a # b # rest) = code_unit le [a, b] # code_units le rest"
  by (simp add: code_unit_def)

lemma lossy_text_alt:
  "lossy_text le n payload
     = take n (map ascii_or_qmark (takeWhile (\<lambda>ch. ch \<noteq> 0) (code_units le payload)))"
  by (simp add: lossy_text_def ascii_or_qmark_def [abs_def])

lemma lossy_text_short: "length payload < 2 \<Longrightarrow> lossy_text le n payload = []"
proof (cases payload)
  case Nil
  then show ?thesis by (simp add: lossy_text_def)
next
  case (Cons a r)
  assume "length payload < 2"
  with Cons have "r = []" by simp
  with Cons show ?thesis by (simp add: lossy_text_def)
qed

lemma lossy_text_zero: "lossy_text le 0 payload = []"
  by (simp add: lossy_text_def)

lemma lossy_text_null: "code_unit le [a, b] = 0 \<Longrightarrow> lossy_text le n (a # b # rest) = []"
  by (simp add: lossy_text_alt code_units_pair del: code_units.simps)

lemma lossy_text_step:
  "code_unit le [a, b] \<noteq> 0 \<Longrightarrow>
   lossy_text le (Suc n) (a # b # rest)
     = ascii_or_qmark (code_unit le [a, b]) # lossy_text le n rest"
  by (simp add: lossy_text_alt code_units_pair del: code_units.simps)

lemma fread_two:
  assumes "pos f + 2 \<le> length (content f)"
  shows "fread 2 f = ([content f ! pos f, content f ! Suc (pos f)], f\<lparr>pos := pos f + 2\<rparr>)"
proof -
  from assms have "drop (pos f) (content f)
      = content f ! pos f # content f ! Suc (pos f) # drop (Suc (Suc (pos f))) (content f)"
    by (simp add: Cons_nth_drop_Suc)
  then show ?thesis
    by (simp add: fread_def Let_def numeral_2_eq_2)
qed

lemma payload_step:
  assumes "pos f + n \<le> length (content f)" "2 \<le> n"
  shows "take n (drop (pos f) (content f))
           = content f ! pos f # content f ! Suc (pos f)
               # take (n - 2) (drop (pos f + 2) (content f))"
proof -
  from assms have d: "drop (pos f) (content f)
      = content f ! pos f # content f ! Suc (pos f) # drop (Suc (Suc (pos f))) (content f)"
    by (simp add: Cons_nth_drop_Suc)
  from assms(2) obtain m where n: "n = Suc (Suc m)"
    by (metis add_2_eq_Suc le_Suc_ex)
  show ?thesis unfolding d n by simp
qed

lemma utf16_loop_decodes:
  assumes "int outpos \<le> max_len - 1" "length out = nat max_len"
    and "pos f + unat size_n \<le> length (content f)"
  shows "\<exists>o' out' f'. utf16_loop junk le max_len size_n outpos out f = Inr (o', out', f')
           \<and> drop outpos (take o' out')
               = lossy_text le (nat max_len - 1 - outpos)
                   (take (unat size_n) (drop (pos f) (content f)))"
  using assms
proof (induction junk le max_len size_n outpos out f rule: utf16_loop.induct)
  case (1 junk le max_len size_n outpos out f)
  let ?payload = "take (unat size_n) (drop (pos f) (content f))"
  show ?case
  proof (cases "2 \<le> size_n \<and> int outpos < max_len - 1")
    case False
    have "lossy_text le (nat max_len - 1 - outpos) ?payload = []"
    proof (cases "2 \<le> size_n")
      case True
      with False have "\<not> int outpos < max_len - 1" by simp
      then have "nat (max_len - 1) \<le> outpos" by (simp add: zless_nat_eq_int_zless not_less)
      moreover have "nat (max_len - 1) = nat max_len - 1" by (simp add: nat_diff_distrib')
      ultimately have "nat max_len - 1 - outpos = 0" by simp
      then show ?thesis by (simp add: lossy_text_zero)
    next
      case False
      then have "unat size_n < 2" by (simp add: word_le_nat_alt not_le)
      then show ?thesis by (intro lossy_text_short) simp
    qed
    with False show ?thesis
      by (subst utf16_loop.simps) auto
  next
    case go: True
    then have n2: "2 \<le> unat size_n" by (simp add: word_le_nat_alt)
    with "1.prems"(3) have av: "pos f + 2 \<le> length (content f)" by simp
    define a where "a = content f ! pos f"
    define b where "b = content f ! Suc (pos f)"
    define f1 where "f1 = f\<lparr>pos := pos f + 2\<rparr>"
    have fr: "fread 2 f = ([a, b], f1)"
      unfolding a_def b_def f1_def using av by (rule fread_two)
    have us: "unat (size_n - 2) = unat size_n - 2"
      using go by (simp add: unat_sub)
    have pl: "?payload = a # b # take (unat (size_n - 2)) (drop (pos f1) (content f1))"
      unfolding a_def b_def f1_def us using "1.prems"(3) n2 by (simp add: payload_step)
    define ch where "ch = code_unit le [a, b]"
    from go have "outpos < nat (max_len - 1)" by (simp add: zless_nat_eq_int_zless)
    also have "nat (max_len - 1) = nat max_len - 1" by (simp add: nat_diff_distrib')
    finally have room: "nat max_len - 1 - outpos = Suc (nat max_len - 1 - Suc outpos)"
      by simp
    show ?thesis
    proof (cases "ch = 0")
      case True
      then have "lossy_text le (nat max_len - 1 - outpos) ?payload = []"
        unfolding pl ch_def by (rule lossy_text_null)
      with go fr True show ?thesis
        by (subst utf16_loop.simps) (auto simp: ch_def Let_def)
    next
      case False
      define v where "v = ascii_or_qmark ch"
      from go "1.prems" have lt: "outpos < length out" by linarith
      then have pk: "poke out outpos v = Inr (out[outpos := v])" by (rule poke_Inr)
      have unf: "utf16_loop junk le max_len size_n outpos out f
                   = utf16_loop junk le max_len (size_n - 2) (Suc outpos) (out[outpos := v]) f1"
        using go fr False pk
        by (subst utf16_loop.simps) (simp add: ch_def v_def Let_def)
      have p1: "int (Suc outpos) \<le> max_len - 1" using go by simp
      have p2: "length (out[outpos := v]) = nat max_len" using "1.prems" by simp
      have p3: "pos f1 + unat (size_n - 2) \<le> length (content f1)"
        using "1.prems"(3) n2 by (simp add: f1_def us)
      from utf16_loop_safe [OF p1 p2, of junk le "size_n - 2" f1]
      obtain o' out' f' where r:
        "utf16_loop junk le max_len (size_n - 2) (Suc outpos) (out[outpos := v]) f1 = Inr (o', out', f')"
        "Suc outpos \<le> o'" "int o' \<le> max_len - 1" "length out' = length (out[outpos := v])"
        "take (Suc outpos) out' = take (Suc outpos) (out[outpos := v])"
        by blast
      have "\<exists>o' out' f'. utf16_loop junk le max_len (size_n - 2) (Suc outpos) (out[outpos := v]) f1
                  = Inr (o', out', f')
           \<and> drop (Suc outpos) (take o' out')
               = lossy_text le (nat max_len - 1 - Suc outpos)
                   (take (unat (size_n - 2)) (drop (pos f1) (content f1)))"
        using go fr False pk p1 p2 p3
        by (intro "1.IH" [where x = "[a, b]" and y = f1 and xa = "[a, b]" and xb = "size_n - 2"
              and xc = ch and b = "out[outpos := v]"])
           (simp_all add: ch_def v_def)
      with r(1) have ih: "drop (Suc outpos) (take o' out')
               = lossy_text le (nat max_len - 1 - Suc outpos)
                   (take (unat (size_n - 2)) (drop (pos f1) (content f1)))"
        by simp
      have "out' ! outpos = take (Suc outpos) out' ! outpos" by simp
      also have "\<dots> = take (Suc outpos) (out[outpos := v]) ! outpos" by (simp only: r(5))
      also have "\<dots> = v" using lt by simp
      finally have at: "out' ! outpos = v" .
      from r(2,3,4) p2 have ol: "outpos < length (take o' out')" by simp
      have "drop outpos (take o' out') = take o' out' ! outpos # drop (Suc outpos) (take o' out')"
        by (rule Cons_nth_drop_Suc [OF ol, symmetric])
      also have "take o' out' ! outpos = v" using r(2) at by simp
      finally have "drop outpos (take o' out')
          = v # lossy_text le (nat max_len - 1 - Suc outpos)
                   (take (unat (size_n - 2)) (drop (pos f1) (content f1)))"
        by (simp add: ih)
      also have "\<dots> = lossy_text le (nat max_len - 1 - outpos) ?payload"
        unfolding pl room v_def ch_def using False by (simp add: lossy_text_step ch_def)
      finally show ?thesis using unf r(1) by simp
    qed
  qed
qed

lemma read_text_two_byte_decodes:
  assumes "2 \<le> max_len" "length out = nat max_len"
  shows "\<exists>out' f'.
           (case utf16_loop junk le max_len size2 0 out f2 of
              Inl e \<Rightarrow> Inl e
            | Inr (outpos, out1, f3) \<Rightarrow>
                (case poke out1 outpos 0 of
                   Inl e \<Rightarrow> Inl e
                 | Inr out2 \<Rightarrow> Inr (out2, f3))) = Inr (out', f')
           \<and> length out' = length out \<and> length (c_string out') < length out'
           \<and> (\<forall>b \<in> set (c_string out'). b < 128)
           \<and> (pos f2 + unat size2 \<le> length (content f2) \<longrightarrow>
                c_string out'
                  = lossy_text le (nat max_len - 1)
                      (take (unat size2) (drop (pos f2) (content f2))))"
proof -
  from assms have z: "int 0 \<le> max_len - 1" by simp
  from utf16_loop_safe [OF z assms(2), of junk le size2 f2]
  obtain o' out1 f3 where r:
    "utf16_loop junk le max_len size2 0 out f2 = Inr (o', out1, f3)"
    "int o' \<le> max_len - 1" "length out1 = length out"
    "\<forall>i. i < o' \<longrightarrow> out1 ! i \<noteq> 0 \<and> out1 ! i < 128"
    by auto
  from r(2,3) assms have lt: "o' < length out1" by linarith
  then have pk: "poke out1 o' 0 = Inr (out1[o' := 0])" by (simp add: poke_def)
  from lt have t: "length (c_string (out1[o' := 0])) < length (out1[o' := 0])"
    by (rule terminated_at)
  have "c_string (out1[o' := 0]) = take o' (out1[o' := 0])"
    using lt r(4) by (intro c_string_prefix) simp_all
  then have cs: "c_string (out1[o' := 0]) = take o' out1" by simp
  have small: "\<forall>b \<in> set (take o' out1). b < 128"
    using r(4) lt by (auto simp: in_set_conv_nth)
  have dec: "pos f2 + unat size2 \<le> length (content f2) \<longrightarrow>
      take o' out1 = lossy_text le (nat max_len - 1) (take (unat size2) (drop (pos f2) (content f2)))"
  proof
    assume av: "pos f2 + unat size2 \<le> length (content f2)"
    from utf16_loop_decodes [OF z assms(2) av, of junk le] r(1)
    show "take o' out1
        = lossy_text le (nat max_len - 1) (take (unat size2) (drop (pos f2) (content f2)))"
      by simp
  qed
  from cs t pk r(1,3) small dec show ?thesis by simp
qed

lemma fread_bom:
  assumes "fread 1 f = ([enc], f1)" "pos f + 3 \<le> length (content f)"
  shows "fread 2 f1 = ([content f ! (pos f + 1), content f ! (pos f + 2)], f\<lparr>pos := pos f + 3\<rparr>)"
proof -
  from fread_one(2) [OF assms(1)] have f1: "f1 = f\<lparr>pos := Suc (pos f)\<rparr>" .
  with assms(2) have "pos f1 + 2 \<le> length (content f1)" by simp
  from fread_two [OF this] show ?thesis by (simp add: f1)
qed

lemma unat_minus_three:
  fixes n :: u32
  assumes "3 \<le> unat n"
  shows "unat (n - 3) = unat n - 3"
proof -
  have "(3 :: u32) \<le> n" using assms by (simp add: word_le_nat_alt)
  then show ?thesis by (simp add: unat_sub)
qed

text \<open>
  Claim C6. For every frame size, every content and position of the stream (hence every
  selector byte), every indeterminate content of \<open>c\<close>, and every destination of
  \<open>max\<close> bytes with \<open>1 \<le> max\<close>, \<open>read_text\<close> stores nothing outside the
  destination (no store is a fault, and the destination keeps its length), leaves a zero
  in it, so that the string it holds is shorter than the destination, and yields the
  empty string when the selector is none of 0, 1, 2, 3 (or missing). In the two-byte case
  the string holds no byte from 128 on; when the stream holds the whole frame, of three
  bytes or more, the string is the decoding of the specification: the code units of the
  payload up to the first null unit, code points from 128 on replaced by \<open>?\<close>, cut to
  \<open>max - 1\<close> characters.
\<close>

theorem read_text_bounded_and_terminated:
  assumes "1 \<le> max_len" "max_len \<le> INT_MAX" "length out = nat max_len"
  shows "\<exists>out' f'. read_text junk f size_n out max_len = Inr (out', f')
           \<and> length out' = length out
           \<and> length (c_string out') < length out'
           \<and> (selector f \<notin> {Some 0, Some 1, Some 2, Some 3} \<longrightarrow> c_string out' = [])
           \<and> (selector f \<in> {Some 1, Some 2} \<longrightarrow> (\<forall>b \<in> set (c_string out'). b < 128))
           \<and> (selector f \<in> {Some 1, Some 2} \<and> 3 \<le> unat size_n
                \<and> pos f + unat size_n \<le> length (content f) \<longrightarrow>
                c_string out'
                  = utf16_lossy_spec
                      (\<not> (content f ! (pos f + 1) = 0xFE \<and> content f ! (pos f + 2) = 0xFF))
                      (nat max_len)
                      (take (unat size_n - 3) (drop (pos f + 3) (content f))))"
proof -
  from assms have pos: "0 < length out" by simp
  have empty: "poke out 0 0 = Inr (out[0 := 0])" using pos by (simp add: poke_def)
  have e1: "length (c_string (out[0 := 0])) < length (out[0 := 0])"
    using pos by (rule terminated_at)
  have e2: "c_string (out[0 := 0]) = []" using pos by (rule c_string_empty)
  show ?thesis
  proof (cases "max_len < 2")
    case True
    with assms(1) have m1: "max_len = 1" by simp
    have "utf16_lossy_spec le 1 payload = []" for le payload
      by (simp add: utf16_lossy_spec_def lossy_text_zero)
    with True m1 show ?thesis using empty e1 e2 by (simp add: read_text_def)
  next
    case big: False
    then have m2: "2 \<le> max_len" by simp
    obtain got f1 where fr: "fread 1 f = (got, f1)" by (cases "fread 1 f")
    show ?thesis
    proof (cases "length got = 1")
      case False
      with fr have "selector f = None"
        by (auto simp: fread_def selector_def Let_def min_def split: if_splits)
      with False big fr show ?thesis using empty e1 e2 by (simp add: read_text_def)
    next
      case True
      then obtain enc where got: "got = [enc]" by (cases got) simp_all
      with fr have sel: "selector f = Some enc" by (simp add: fread_one)
      consider (none) "size_n - 1 = 0"
        | (single) "size_n - 1 \<noteq> 0" "enc = 0 \<or> enc = 3"
        | (double) "size_n - 1 \<noteq> 0" "\<not> (enc = 0 \<or> enc = 3)" "enc = 1 \<or> enc = 2"
        | (other) "size_n - 1 \<noteq> 0" "\<not> (enc = 0 \<or> enc = 3)" "\<not> (enc = 1 \<or> enc = 2)"
        by blast
      then show ?thesis
      proof cases
        case none
        then have "size_n = 1" by simp
        then have "\<not> 3 \<le> unat size_n" by simp
        with none big fr got show ?thesis using empty e1 e2 by (simp add: read_text_def)
      next
        case single
        from read_text_single_byte [OF m2 assms(2,3), of "size_n - 1" f1]
        obtain out' f' where r:
          "(case fread (unat (if (word_of_int max_len :: u32) \<le> size_n - 1
                              then word_of_int (max_len - 1) else size_n - 1)) f1 of
              (got_text, f2) \<Rightarrow>
                (case poke_bytes out got_text of
                   Inl e \<Rightarrow> Inl e
                 | Inr out1 \<Rightarrow>
                     (case poke out1 (length got_text) 0 of
                        Inl e \<Rightarrow> Inl e
                      | Inr out2 \<Rightarrow> Inr (out2, f2)))) = Inr (out', f')"
          "length out' = length out" "length (c_string out') < length out'"
          by blast
        have "read_text junk f size_n out max_len = Inr (out', f')"
          using big fr got single r(1) by (simp add: read_text_def Let_def)
        with r(2,3) sel single(2) show ?thesis by auto
      next
        case double
        define bom where "bom = fst (fread 2 f1) @ drop (length (fst (fread 2 f1))) [0, 0]"
        define le where "le = (\<not> (bom ! 0 = 0xFE \<and> bom ! 1 = 0xFF))"
        define f2 where "f2 = snd (fread 2 f1)"
        from read_text_two_byte_decodes [OF m2 assms(3), of junk le "size_n - 1 - 2" f2]
        obtain out' f' where r:
          "(case utf16_loop junk le max_len (size_n - 1 - 2) 0 out f2 of
              Inl e \<Rightarrow> Inl e
            | Inr (outpos, out1, f3) \<Rightarrow>
                (case poke out1 outpos 0 of
                   Inl e \<Rightarrow> Inl e
                 | Inr out2 \<Rightarrow> Inr (out2, f3))) = Inr (out', f')"
          "length out' = length out" "length (c_string out') < length out'"
          "\<forall>b \<in> set (c_string out'). b < 128"
          "pos f2 + unat (size_n - 1 - 2) \<le> length (content f2) \<longrightarrow>
                c_string out'
                  = lossy_text le (nat max_len - 1)
                      (take (unat (size_n - 1 - 2)) (drop (pos f2) (content f2)))"
          by blast
        have rt: "read_text junk f size_n out max_len = Inr (out', f')"
          using big fr got double r(1)
          by (simp add: read_text_def Let_def bom_def le_def f2_def case_prod_beta)
        have spec: "c_string out'
                  = utf16_lossy_spec
                      (\<not> (content f ! (pos f + 1) = 0xFE \<and> content f ! (pos f + 2) = 0xFF))
                      (nat max_len)
                      (take (unat size_n - 3) (drop (pos f + 3) (content f)))"
          if big3: "3 \<le> unat size_n" and av: "pos f + unat size_n \<le> length (content f)"
        proof -
          from big3 av have "pos f + 3 \<le> length (content f)" by simp
          from fread_bom [OF fr [unfolded got] this]
          have f2bom: "fread 2 f1
              = ([content f ! (pos f + 1), content f ! (pos f + 2)], f\<lparr>pos := pos f + 3\<rparr>)" .
          then have f2: "f2 = f\<lparr>pos := pos f + 3\<rparr>" by (simp add: f2_def)
          from f2bom have le: "le = (\<not> (content f ! (pos f + 1) = 0xFE
                                         \<and> content f ! (pos f + 2) = 0xFF))"
            by (simp add: le_def bom_def)
          note u = unat_minus_three [OF big3]
          from av big3 have "pos f2 + unat (size_n - 1 - 2) \<le> length (content f2)"
            by (simp add: f2 u)
          with r(5) have "c_string out'
                  = lossy_text le (nat max_len - 1)
                      (take (unat (size_n - 1 - 2)) (drop (pos f2) (content f2)))"
            by simp
          then show ?thesis
            by (simp add: utf16_lossy_spec_def le f2 u)
        qed
        from rt r(2,3,4) sel double spec show ?thesis by auto
      next
        case other
        with big fr got have "read_text junk f size_n out max_len = Inr (out[0 := 0], f1)"
          using empty by (simp add: read_text_def Let_def)
        with e1 e2 sel other show ?thesis by auto
      qed
    qed
  qed
qed

text \<open>
  The theorem at two frames and a destination of eight bytes: a two-byte frame with a
  little-endian mark and the code units \<open>0048\<close>, \<open>00E9\<close>, \<open>2021\<close>,
  \<open>006F\<close>, which decodes to \<open>H??o\<close>, and a frame with the selector 7, which
  yields the empty string.
\<close>

theorem read_text_bounded_and_terminated_witness:
  "(\<exists>out' f'.
      read_text (\<lambda>i. 0)
        \<lparr>content = [1, 0xFF, 0xFE, 0x48, 0, 0xE9, 0, 0x21, 0x20, 0x6F, 0], pos = 0\<rparr>
        11 (replicate 8 0) 8 = Inr (out', f')
      \<and> length out' = 8 \<and> c_string out' = [0x48, 0x3F, 0x3F, 0x6F])
   \<and> (\<exists>out' f'.
      read_text (\<lambda>i. 0) \<lparr>content = [7, 0x41, 0x42], pos = 0\<rparr> 3 (replicate 8 0) 8
        = Inr (out', f')
      \<and> length out' = 8 \<and> c_string out' = [])"
proof -
  have h: "1 \<le> (8 :: int)" "(8 :: int) \<le> INT_MAX" "length (replicate 8 (0 :: u8)) = nat 8"
    by (simp_all add: INT_MAX_def)
  have s1: "selector \<lparr>content = [1, 0xFF, 0xFE, 0x48, 0, 0xE9, 0, 0x21, 0x20, 0x6F, 0], pos = 0\<rparr>
              = Some 1"
    by (simp add: selector_def)
  have s2: "selector \<lparr>content = [7, 0x41, 0x42], pos = 0\<rparr> = Some 7"
    by (simp add: selector_def)
  have d: "utf16_lossy_spec True 8 [0x48, 0, 0xE9, 0, 0x21, 0x20, 0x6F, 0]
             = [0x48, 0x3F, 0x3F, 0x6F]"
    by (simp add: utf16_lossy_spec_def lossy_text_def)
  from read_text_bounded_and_terminated [OF h, of "\<lambda>i. 0"
      "\<lparr>content = [1, 0xFF, 0xFE, 0x48, 0, 0xE9, 0, 0x21, 0x20, 0x6F, 0], pos = 0\<rparr>" 11]
  have a: "\<exists>out' f'.
      read_text (\<lambda>i. 0)
        \<lparr>content = [1, 0xFF, 0xFE, 0x48, 0, 0xE9, 0, 0x21, 0x20, 0x6F, 0], pos = 0\<rparr>
        11 (replicate 8 0) 8 = Inr (out', f')
      \<and> length out' = 8 \<and> c_string out' = [0x48, 0x3F, 0x3F, 0x6F]"
    by (simp add: s1 d) blast
  from read_text_bounded_and_terminated [OF h, of "\<lambda>i. 0"
      "\<lparr>content = [7, 0x41, 0x42], pos = 0\<rparr>" 3]
  have b: "\<exists>out' f'.
      read_text (\<lambda>i. 0) \<lparr>content = [7, 0x41, 0x42], pos = 0\<rparr> 3 (replicate 8 0) 8
        = Inr (out', f')
      \<and> length out' = 8 \<and> c_string out' = []"
    by (simp add: s2) blast
  from a b show ?thesis by (rule conjI)
qed

end
